theory Spec2Isabelle
  imports Complex_Main "HOL-Library.Word" "HOL-Library.Log_Nat"
begin

section \<open>JavaScript values used by the plugin\<close>

text \<open>
  The plugin computes with JavaScript numbers, which are IEEE 754 doubles. A
  number is modelled as a finite value (a rational), one of the two infinities,
  or NaN. Division by zero, the arithmetic of the infinities and the way NaN
  poisons every operation and fails every comparison are modelled as ECMAScript
  defines them, because the shortening loop reaches them. Zero has no sign (the
  DOM never reports a negative zero as a width).

  The quotient and the difference of two finite numbers are rounded to a double.
  The rounding is the first argument \<open>rd\<close> of the two operators and of every
  function that computes with them: \<open>binary64\<close>, defined below, is the rounding
  of the machine, and \<open>exact\<close> leaves the value as it is. A property stated for
  every \<open>rd\<close> holds for the arithmetic of the machine; a property stated for
  \<open>exact\<close> is a property of the computation without rounding errors.
\<close>

datatype jsnum = NaN | PInf | NInf | Fin rat

definition exact :: "rat \<Rightarrow> jsnum" where
  "exact x = Fin x"

text \<open>
  Rounding to the nearest double, ties to the even significand: the value is
  brought to a multiple of the unit in the last place of its binade (of the
  smallest normal binade for subnormal values), and a result of magnitude
  \<open>2 ^ 1024\<close> or more is an infinity.
\<close>

definition round_half_even :: "rat \<Rightarrow> int" where
  "round_half_even x =
     (let f = \<lfloor>x\<rfloor>; r = x - of_int f
      in if r < 1 / 2 then f else if 1 / 2 < r then f + 1
         else if even f then f else f + 1)"

text \<open>The exponent \<open>e\<close> of a positive value \<open>a\<close>: \<open>2 ^ e \<le> a < 2 ^ (e + 1)\<close>.\<close>

definition exponent2 :: "rat \<Rightarrow> int" where
  "exponent2 a =
     (let k = bitlen (fst (quotient_of a)) - bitlen (snd (quotient_of a))
      in if 2 powi k \<le> a then k else k - 1)"

definition binary64 :: "rat \<Rightarrow> jsnum" where
  "binary64 x =
     (if x = 0 then Fin 0
      else
        let a = \<bar>x\<bar>;
            e = max (exponent2 a) (- 1022);
            ulp = 2 powi (e - 52);
            y = of_int (round_half_even (a / ulp)) * ulp
        in if 2 powi 1024 \<le> y then (if 0 < x then PInf else NInf)
           else Fin (if 0 < x then y else - y))"

text \<open>The binary \<open>-\<close> operator.\<close>

fun js_sub :: "(rat \<Rightarrow> jsnum) \<Rightarrow> jsnum \<Rightarrow> jsnum \<Rightarrow> jsnum" where
  "js_sub rd NaN _ = NaN"
| "js_sub rd _ NaN = NaN"
| "js_sub rd PInf PInf = NaN"
| "js_sub rd NInf NInf = NaN"
| "js_sub rd PInf _ = PInf"
| "js_sub rd NInf _ = NInf"
| "js_sub rd (Fin _) PInf = NInf"
| "js_sub rd (Fin _) NInf = PInf"
| "js_sub rd (Fin a) (Fin b) = rd (a - b)"

text \<open>The \<open>/\<close> operator: a finite value over zero is an infinity, zero over zero is NaN.\<close>

fun js_div :: "(rat \<Rightarrow> jsnum) \<Rightarrow> jsnum \<Rightarrow> jsnum \<Rightarrow> jsnum" where
  "js_div rd NaN _ = NaN"
| "js_div rd _ NaN = NaN"
| "js_div rd PInf (Fin b) = (if 0 \<le> b then PInf else NInf)"
| "js_div rd NInf (Fin b) = (if 0 \<le> b then NInf else PInf)"
| "js_div rd PInf _ = NaN"
| "js_div rd NInf _ = NaN"
| "js_div rd (Fin _) PInf = Fin 0"
| "js_div rd (Fin _) NInf = Fin 0"
| "js_div rd (Fin a) (Fin b) =
     (if b = 0 then (if a = 0 then NaN else if 0 < a then PInf else NInf)
      else rd (a / b))"

text \<open>The \<open><\<close> operator: false as soon as one side is NaN.\<close>

fun js_less :: "jsnum \<Rightarrow> jsnum \<Rightarrow> bool" where
  "js_less NaN _ = False"
| "js_less _ NaN = False"
| "js_less NInf NInf = False"
| "js_less NInf _ = True"
| "js_less PInf _ = False"
| "js_less (Fin _) NInf = False"
| "js_less (Fin _) PInf = True"
| "js_less (Fin a) (Fin b) = (a < b)"

text \<open>The \<open>===\<close> operator on numbers: NaN equals nothing.\<close>

fun js_strict_eq :: "jsnum \<Rightarrow> jsnum \<Rightarrow> bool" where
  "js_strict_eq NaN _ = False"
| "js_strict_eq _ NaN = False"
| "js_strict_eq a b = (a = b)"

text \<open>\<open>Math.ceil\<close>, \<open>Math.floor\<close>, \<open>Math.round\<close> and \<open>Math.max\<close> of two arguments.\<close>

fun js_ceil :: "jsnum \<Rightarrow> jsnum" where
  "js_ceil (Fin a) = Fin (of_int \<lceil>a\<rceil>)"
| "js_ceil x = x"

fun js_floor :: "jsnum \<Rightarrow> jsnum" where
  "js_floor (Fin a) = Fin (of_int \<lfloor>a\<rfloor>)"
| "js_floor x = x"

fun js_round :: "jsnum \<Rightarrow> jsnum" where
  "js_round (Fin a) = Fin (of_int \<lfloor>a + 1 / 2\<rfloor>)"
| "js_round x = x"

fun js_max :: "jsnum \<Rightarrow> jsnum \<Rightarrow> jsnum" where
  "js_max NaN _ = NaN"
| "js_max _ NaN = NaN"
| "js_max PInf _ = PInf"
| "js_max _ PInf = PInf"
| "js_max NInf b = b"
| "js_max a NInf = a"
| "js_max (Fin a) (Fin b) = Fin (max a b)"

text \<open>
  The \<open>%\<close> operator: the result has the sign of the dividend; the remainder by
  zero and the remainder of an infinity are NaN; the remainder by an infinity is
  the dividend. The remainder of two doubles is a double, so nothing is rounded.
\<close>

definition js_trunc :: "rat \<Rightarrow> int" where
  "js_trunc a = (if 0 \<le> a then \<lfloor>a\<rfloor> else \<lceil>a\<rceil>)"

fun js_mod :: "jsnum \<Rightarrow> jsnum \<Rightarrow> jsnum" where
  "js_mod NaN _ = NaN"
| "js_mod _ NaN = NaN"
| "js_mod PInf _ = NaN"
| "js_mod NInf _ = NaN"
| "js_mod (Fin a) PInf = Fin a"
| "js_mod (Fin a) NInf = Fin a"
| "js_mod (Fin a) (Fin b) =
     (if b = 0 then NaN else Fin (a - b * of_int (js_trunc (a / b))))"

text \<open>
  A JavaScript string is a sequence of 16-bit code units, and \<open>length\<close> counts
  them.
\<close>

type_synonym jschar = "16 word"
type_synonym jsstring = "jschar list"

definition js_length :: "jsstring \<Rightarrow> jsnum" where
  "js_length s = Fin (of_nat (length s))"

text \<open>
  \<open>s.substring(0, end)\<close>: the end index is converted to an integer (NaN becomes
  0, a fraction is truncated) and clamped to the range from 0 to the length.
\<close>

fun substring0 :: "jsstring \<Rightarrow> jsnum \<Rightarrow> jsstring" where
  "substring0 s NaN = []"
| "substring0 s PInf = s"
| "substring0 s NInf = []"
| "substring0 s (Fin a) = take (nat (js_trunc a)) s"

definition dot :: jschar where
  "dot = 0x2E"

text \<open>Text given in ASCII, as code units.\<close>

definition ascii :: "string \<Rightarrow> jsstring" where
  "ascii s = map (\<lambda>c. of_nat (of_char c)) s"

section \<open>Measuring and shortening text\<close>

text \<open>The object \<open>{height, width}\<close> that a measurement returns.\<close>

record measurement =
  height_px :: jsnum
  width_px :: jsnum

text \<open>
  \<open>measureText\<close> answers an empty text with zero height and width without
  touching the document. For any other text it builds an \<open>svg\<close> element, reads
  its bounding box and removes it again. That part belongs to the browser; it is
  the parameter \<open>getBBox\<close>, which reads and may change the state \<open>'d\<close> of the
  document. The class name is only handed on to the browser.
\<close>

definition measureText ::
  "('d \<Rightarrow> jsstring \<Rightarrow> 'c \<Rightarrow> measurement \<times> 'd) \<Rightarrow>
   'd \<Rightarrow> jsstring \<Rightarrow> 'c \<Rightarrow> measurement \<times> 'd" where
  "measureText getBBox d text className =
     (if text = [] then (\<lparr>height_px = Fin 0, width_px = Fin 0\<rparr>, d)
      else getBBox d text className)"

text \<open>
  What the measure function of the shortener returns is the object it finds under
  the text in its cache: a measurement, or a property that the cache inherits
  from \<open>Object.prototype\<close> (a function, or the prototype itself). Such an
  object has no \<open>width\<close>: reading it gives \<open>undefined\<close>, which is NaN in
  every comparison and arithmetic operation of \<open>getShortened\<close>.
\<close>

datatype returned = Measured measurement | Inherited

fun width_of :: "returned \<Rightarrow> jsnum" where
  "width_of (Measured m) = width_px m"
| "width_of Inherited = NaN"

text \<open>
  \<open>getShortened\<close>: the \<open>do ... while (true)\<close> loop. The measure function is
  called on \<open>this\<close>, whose state \<open>'s\<close> it may change, so the state is threaded
  through the iterations. The loop has no bound of its own: not returning is the
  value \<open>None\<close>.
\<close>

partial_function (option) getShortened_loop ::
  "(rat \<Rightarrow> jsnum) \<Rightarrow> jsnum \<Rightarrow> ('s \<Rightarrow> jsstring \<Rightarrow> 'c \<Rightarrow> returned \<times> 's) \<Rightarrow> 'c \<Rightarrow>
   's \<Rightarrow> jsstring \<Rightarrow> bool \<Rightarrow> (jsstring \<times> 's) option" where
  "getShortened_loop rd width measureFunction className this short shortened =
     (let (m, this') = measureFunction this short className;
          w = width_of m
      in if js_less w width
         then Some (short @ (if shortened then [dot, dot, dot] else []), this')
         else
           let oneLetterApprox = js_div rd w (js_length short);
               overlap = js_sub rd w width;
               keepChars = js_max (Fin 0)
                 (js_sub rd (js_sub rd (js_length short)
                    (js_ceil (js_div rd overlap oneLetterApprox))) (Fin 3))
           in if js_less keepChars (Fin 1) then Some ([dot], this')
              else getShortened_loop rd width measureFunction className this'
                     (substring0 short keepChars) True)"

definition getShortened ::
  "(rat \<Rightarrow> jsnum) \<Rightarrow> jsstring \<Rightarrow> jsnum \<Rightarrow> ('s \<Rightarrow> jsstring \<Rightarrow> 'c \<Rightarrow> returned \<times> 's) \<Rightarrow> 'c \<Rightarrow>
   's \<Rightarrow> (jsstring \<times> 's) option" where
  "getShortened rd text width measureFunction className this =
     getShortened_loop rd width measureFunction className this text False"

section \<open>The measurement cache\<close>

text \<open>
  \<open>TextShortener\<close> keeps \<open>_cache\<close>, an object indexed by class name whose
  values are objects indexed by text. Both are plain objects, and the code reads
  them with \<open>obj[key]\<close>, without \<open>hasOwnProperty\<close>: a key that the object
  does not have itself is looked up in \<open>Object.prototype\<close>. These are the
  property names of \<open>Object.prototype\<close>; the value read under each of them is
  a function, or for \<open>__proto__\<close> the prototype itself, and so truthy.
\<close>

definition Object_prototype_names :: "jsstring list" where
  "Object_prototype_names =
     map ascii
       [''constructor'', ''__defineGetter__'', ''__defineSetter__'', ''hasOwnProperty'',
        ''__lookupGetter__'', ''__lookupSetter__'', ''isPrototypeOf'',
        ''propertyIsEnumerable'', ''toString'', ''valueOf'', ''__proto__'',
        ''toLocaleString'']"

text \<open>
  The plugin passes one class name, \<open>highcharts-axis-labels\<close>, and the
  shortener is not visible outside the plugin. Under a class name that is a
  property name of \<open>Object.prototype\<close> the code would use an object of the
  host as the class cache; the type of class names leaves these names out.
\<close>

typedef className = "{s :: jsstring. s \<notin> set Object_prototype_names}"
  by (rule exI[of _ "[]"]) (simp add: Object_prototype_names_def ascii_def)

definition highcharts_axis_labels :: className where
  "highcharts_axis_labels = Abs_className (ascii ''highcharts-axis-labels'')"

text \<open>
  The own properties of the two levels are maps. A measurement reads the
  document, so the state that a call works on holds the cache and the document.
\<close>

type_synonym classCache = "jsstring \<rightharpoonup> measurement"

record 'd page =
  cache :: "className \<rightharpoonup> classCache"
  document :: 'd

text \<open>\<open>new TextShortener()\<close> starts with an empty cache.\<close>

definition TextShortener :: "'d \<Rightarrow> 'd page" where
  "TextShortener d = \<lparr>cache = Map.empty, document = d\<rparr>"

text \<open>
  \<open>TextShortener.prototype.measureText\<close>. The first statement stores the class
  cache (a new empty one if there was none) under the class name. Then
  \<open>classCache[text]\<close> is read: an own property is a stored measurement, an
  object and so truthy, and it is returned; a text that is a property name of
  \<open>Object.prototype\<close> finds the inherited property, which is truthy and is
  returned as well, with nothing measured or stored; any other text is
  \<open>undefined\<close>, and is measured and stored. \<open>classCache\<close> is the stored
  object itself, so the assignment \<open>classCache[text] = ...\<close> changes the cache.
\<close>

definition TextShortener_measureText ::
  "('d \<Rightarrow> jsstring \<Rightarrow> className \<Rightarrow> measurement \<times> 'd) \<Rightarrow>
   'd page \<Rightarrow> jsstring \<Rightarrow> className \<Rightarrow> returned \<times> 'd page" where
  "TextShortener_measureText getBBox this text className =
     (let classCache = (case cache this className of Some c \<Rightarrow> c | None \<Rightarrow> Map.empty);
          this1 = this\<lparr>cache := (cache this)(className \<mapsto> classCache)\<rparr>
      in case classCache text of
           Some m \<Rightarrow> (Measured m, this1)
         | None \<Rightarrow>
             if text \<in> set Object_prototype_names then (Inherited, this1)
             else
               let (m, d') = measureText getBBox (document this1) text className
               in (Measured m,
                   this1\<lparr>cache := (cache this1)(className \<mapsto> classCache(text \<mapsto> m)),
                         document := d'\<rparr>))"

text \<open>\<open>TextShortener.prototype.getShortened\<close> passes its own \<open>measureText\<close>.\<close>

definition TextShortener_getShortened ::
  "(rat \<Rightarrow> jsnum) \<Rightarrow> ('d \<Rightarrow> jsstring \<Rightarrow> className \<Rightarrow> measurement \<times> 'd) \<Rightarrow>
   jsstring \<Rightarrow> jsnum \<Rightarrow> className \<Rightarrow> 'd page \<Rightarrow> (jsstring \<times> 'd page) option" where
  "TextShortener_getShortened rd getBBox text width className this =
     getShortened rd text width (TextShortener_measureText getBBox) className this"

text \<open>The own entry of the two-level cache for a class name and a text.\<close>

definition cached :: "'d page \<Rightarrow> className \<Rightarrow> jsstring \<Rightarrow> measurement option" where
  "cached this className text =
     (case cache this className of None \<Rightarrow> None | Some c \<Rightarrow> c text)"

text \<open>A sequence of \<open>measureText\<close> calls, each given as (text, class name).\<close>

fun measureText_calls ::
  "('d \<Rightarrow> jsstring \<Rightarrow> className \<Rightarrow> measurement \<times> 'd) \<Rightarrow>
   'd page \<Rightarrow> (jsstring \<times> className) list \<Rightarrow> 'd page" where
  "measureText_calls getBBox this [] = this"
| "measureText_calls getBBox this ((text, className) # calls) =
     measureText_calls getBBox
       (snd (TextShortener_measureText getBBox this text className)) calls"

section \<open>The wrapped axis initialisation\<close>

text \<open>
  The values an option can hold, as far as the plugin looks at them, and their
  truthiness; an absent property is \<open>undefined\<close>, which is falsy.
\<close>

datatype jsvalue = JBool bool | JNum jsnum | JStr jsstring

fun truthy :: "jsvalue option \<Rightarrow> bool" where
  "truthy None = False"
| "truthy (Some (JBool b)) = b"
| "truthy (Some (JNum n)) = (n \<noteq> NaN \<and> n \<noteq> Fin 0)"
| "truthy (Some (JStr s)) = (s \<noteq> [])"

text \<open>
  A function stored in the options is either one the host or the user put there
  (\<open>'h\<close>) or one of the two closures of the plugin, which capture
  \<open>labelsRotated\<close>.
\<close>

datatype 'h formatter_fn = Host_formatter 'h | Shorten_formatter bool
datatype 'h positioner_fn = Host_positioner 'h | Skip_positioner bool

record 'h labels_options =
  rotation :: "jsvalue option"
  maxStaggerLines :: "jsvalue option"
  overflow :: "jsvalue option"
  formatter :: "'h formatter_fn option"

record 'h options =
  isX :: "jsvalue option"
  shortenLabels :: "jsvalue option"
  labels :: "'h labels_options option"
  tickPositioner :: "'h positioner_fn option"
  categories :: "jsstring list option"

text \<open>
  The label formatter of the plugin: \<open>this.chart.plotWidth\<close>,
  \<open>this.axis.tickPositions.length\<close> and \<open>this.value\<close> are its inputs, \<open>ts\<close>
  is the shortener shared by all axes.
\<close>

definition formatter ::
  "(rat \<Rightarrow> jsnum) \<Rightarrow> ('d \<Rightarrow> jsstring \<Rightarrow> className \<Rightarrow> measurement \<times> 'd) \<Rightarrow>
   bool \<Rightarrow> jsnum \<Rightarrow> nat \<Rightarrow> jsstring \<Rightarrow> 'd page \<Rightarrow> (jsstring \<times> 'd page) option" where
  "formatter rd getBBox labelsRotated plotWidth tickPositions_length val ts =
     (let pixelWidth = (if labelsRotated then Fin 200
                        else js_round (js_div rd plotWidth
                               (Fin (of_nat tickPositions_length))))
      in TextShortener_getShortened rd getBBox val pixelWidth highcharts_axis_labels ts)"

text \<open>
  The tick positioner of the plugin: \<open>this.chart.plotWidth\<close> and
  \<open>this.categories\<close> are its inputs. The indices are array indices, hence
  natural numbers; \<open>idx % skip === 0\<close> is computed on JavaScript numbers.
\<close>

definition tickPositioner ::
  "(rat \<Rightarrow> jsnum) \<Rightarrow> bool \<Rightarrow> jsnum \<Rightarrow> jsstring list \<Rightarrow> nat list" where
  "tickPositioner rd labelsRotated plotWidth cats =
     (let perTickWidth = (if labelsRotated then Fin 20 else Fin 80);
          ticks = js_floor (js_div rd plotWidth perTickWidth);
          skip = js_ceil (js_div rd (Fin (of_nat (length cats))) ticks);
          indices = filter (\<lambda>idx. js_strict_eq (js_mod (Fin (of_nat idx)) skip) (Fin 0))
                      (map fst (enumerate 0 cats))
      in indices)"

text \<open>\<open>category.replace(/ /g, nbsp)\<close> with the no-break space U+00A0: every space becomes one.\<close>

definition replace_spaces :: "jsstring \<Rightarrow> jsstring" where
  "replace_spaces category = map (\<lambda>c. if c = 0x20 then 0xA0 else c) category"

text \<open>
  \<open>H.merge(true, options, {...})\<close> extends \<open>options\<close> in place with the
  properties of the object literal: the properties of \<open>labels\<close> are written
  into the existing \<open>labels\<close> object (a new one if there was none), the tick
  positioner and the array of categories replace what was there. \<open>H.merge\<close>
  belongs to the host library; this is its documented effect on the three
  properties the plugin passes.
\<close>

definition merge_shorten :: "bool \<Rightarrow> jsstring list \<Rightarrow> 'h options \<Rightarrow> 'h options" where
  "merge_shorten labelsRotated cats opts =
     opts\<lparr>labels := Some
            ((case labels opts of
                Some l \<Rightarrow> l
              | None \<Rightarrow> \<lparr>rotation = None, maxStaggerLines = None, overflow = None,
                         formatter = None\<rparr>)
             \<lparr>maxStaggerLines := Some (JNum (Fin 1)),
              overflow := Some (JBool False),
              formatter := Some (Shorten_formatter labelsRotated)\<rparr>),
          tickPositioner := Some (Skip_positioner labelsRotated),
          categories := Some cats\<rparr>"

datatype js_error = TypeError

text \<open>
  The function that \<open>H.wrap\<close> puts in place of \<open>Axis.prototype.init\<close>.
  \<open>proceed\<close> is the original \<open>init\<close>; the wrapper's effect is the call of
  \<open>proceed\<close> it makes. The object literal is evaluated before \<open>H.merge\<close> is
  called, so \<open>options.categories.map\<close> on missing categories throws before
  anything is merged.
\<close>

definition Axis_init ::
  "('a \<Rightarrow> 'c \<Rightarrow> 'h options \<Rightarrow> 'r) \<Rightarrow> 'a \<Rightarrow> 'c \<Rightarrow> 'h options \<Rightarrow> js_error + 'r" where
  "Axis_init proceed this chart opts =
     (let labelsRotated = (case labels opts of None \<Rightarrow> False | Some l \<Rightarrow> truthy (rotation l))
      in if \<not> truthy (isX opts) \<or> \<not> truthy (shortenLabels opts)
         then Inr (proceed this chart opts)
         else case categories opts of
                None \<Rightarrow> Inl TypeError
              | Some cats \<Rightarrow>
                  Inr (proceed this chart
                         (merge_shorten labelsRotated (map replace_spaces cats) opts)))"

section \<open>Notions used to state the properties\<close>

text \<open>
  The value of \<open>keepChars\<close> in an iteration that did not leave the loop, as a
  function of the measured width \<open>w\<close>, the candidate and the target width.
\<close>

definition keepChars :: "(rat \<Rightarrow> jsnum) \<Rightarrow> jsnum \<Rightarrow> jsstring \<Rightarrow> jsnum \<Rightarrow> jsnum" where
  "keepChars rd w short width =
     js_max (Fin 0)
       (js_sub rd (js_sub rd (js_length short)
          (js_ceil (js_div rd (js_sub rd w width) (js_div rd w (js_length short)))))
          (Fin 3))"

text \<open>
  The three shapes of a result: the text itself, the placeholder, or the first
  \<open>n\<close> characters of the text, \<open>n\<close> less than its length, followed by three
  dots.
\<close>

definition result_shape :: "jsstring \<Rightarrow> jsstring \<Rightarrow> bool" where
  "result_shape text r \<longleftrightarrow>
     r = text \<or> r = [dot] \<or> (\<exists>n<length text. r = take n text @ [dot, dot, dot])"

text \<open>
  The result of a call of \<open>TextShortener.getShortened\<close> together with its width,
  measured by the shortener that produced it.
\<close>

definition measured_width ::
  "('d \<Rightarrow> jsstring \<Rightarrow> className \<Rightarrow> measurement \<times> 'd) \<Rightarrow> className \<Rightarrow>
   (jsstring \<times> 'd page) option \<Rightarrow> (jsstring \<times> jsnum) option" where
  "measured_width getBBox className res =
     map_option
       (\<lambda>(r, this). (r, width_of (fst (TextShortener_measureText getBBox this r className))))
       res"

text \<open>
  A browser for the examples: a proportional font in which the glyph \<open>W\<close> is 12
  pixels wide and every other glyph 3 pixels, lines are 14 pixels high, and the
  state of the document is the number of bounding boxes read so far.
  \<open>proportional_measure\<close> is the same as a measure function for
  \<open>getShortened\<close>.
\<close>

definition glyph_width :: "jschar \<Rightarrow> rat" where
  "glyph_width c = (if c = 0x57 then 12 else 3)"

definition proportional_font :: "nat \<Rightarrow> jsstring \<Rightarrow> 'c \<Rightarrow> measurement \<times> nat" where
  "proportional_font d text className =
     (\<lparr>height_px = Fin 14, width_px = Fin (sum_list (map glyph_width text))\<rparr>, Suc d)"

definition proportional_measure :: "nat \<Rightarrow> jsstring \<Rightarrow> 'c \<Rightarrow> returned \<times> nat" where
  "proportional_measure d text className =
     (Measured (fst (proportional_font d text className)), Suc d)"

text \<open>Axis options for the examples.\<close>

definition city_options :: "jsvalue option \<Rightarrow> unit options" where
  "city_options shorten =
     \<lparr>isX = Some (JBool True), shortenLabels = shorten, labels = None,
      tickPositioner = None,
      categories = Some [ascii ''New York'', ascii ''Oslo'', ascii ''Rio de Janeiro'']\<rparr>"

text \<open>Five categories for the examples of the tick positioner.\<close>

definition five_categories :: "jsstring list" where
  "five_categories =
     [ascii ''Mon'', ascii ''Tue'', ascii ''Wed'', ascii ''Thu'', ascii ''Fri'']"

section \<open>The arithmetic\<close>

text \<open>NaN as an operand gives NaN, whatever the other operand and the rounding.\<close>

lemma js_div_NaN [simp]: "js_div rd x NaN = NaN"
  by (cases x) simp_all

lemma js_sub_NaN [simp]: "js_sub rd x NaN = NaN"
  by (cases x) simp_all

lemma js_max_NaN [simp]: "js_max x NaN = NaN"
  by (cases x) simp_all

lemma js_less_NaN [simp]: "js_less x NaN = False"
  by (cases x) simp_all

lemma js_trunc_of_int: "js_trunc (of_int z) = z"
  by (simp add: js_trunc_def)

text \<open>An integer of magnitude below \<open>2 ^ 53\<close> is a double.\<close>

lemma round_half_even_of_int: "round_half_even (of_int j) = j"
  by (simp add: round_half_even_def)

lemma exponent2_of_int_le:
  assumes "0 < j" and "j < 2 ^ 53"
  shows "exponent2 (of_int j) \<le> 52"
proof -
  have "bitlen j \<le> 53" using assms(2) by (simp add: bitlen_le_iff_power)
  moreover have "bitlen 1 = 1" by (simp add: bitlen_alt_def)
  ultimately show ?thesis by (simp add: exponent2_def Let_def)
qed

lemma binary64_of_int:
  assumes "\<bar>k\<bar> < 2 ^ 53"
  shows "binary64 (of_int k) = Fin (of_int k)"
proof (cases "k = 0")
  case True
  then show ?thesis by (simp add: binary64_def)
next
  case False
  define j where "j = \<bar>k\<bar>"
  have j: "0 < j" "j < 2 ^ 53" using False assms by (simp_all add: j_def)
  have a: "\<bar>rat_of_int k\<bar> = of_int j" by (simp add: j_def)
  define e where "e = max (exponent2 (of_int j)) (- 1022)"
  have e: "e \<le> 52" using exponent2_of_int_le[OF j] by (simp add: e_def)
  define d where "d = nat (52 - e)"
  have ulp: "(2::rat) powi (e - 52) = 1 / 2 ^ d"
    using e by (simp add: power_int_def d_def field_simps power_inverse)
  have quot: "rat_of_int j / (2 powi (e - 52)) = of_int (j * 2 ^ d)"
    by (simp add: ulp)
  have y: "of_int (round_half_even (rat_of_int j / (2 powi (e - 52)))) * (2::rat) powi (e - 52)
      = of_int j"
    unfolding quot round_half_even_of_int by (simp add: ulp)
  have "rat_of_int j < 2 ^ 53" using j(2) by (metis of_int_less_numeral_power_cancel_iff)
  also have "\<dots> < (2::rat) ^ 1024" by simp
  finally have small: "\<not> (2::rat) powi 1024 \<le> of_int j" by simp
  have pos: "0 < k \<Longrightarrow> j = k" and neg: "\<not> 0 < k \<Longrightarrow> - rat_of_int j = of_int k"
    by (simp_all add: j_def)
  show ?thesis
    unfolding binary64_def Let_def a e_def[symmetric] y
    using False small pos neg by simp
qed

lemma binary64_numeral:
  "numeral n < (2::int) ^ 53 \<Longrightarrow> binary64 (numeral n) = Fin (numeral n)"
  using binary64_of_int[of "numeral n"] by simp

lemma binary64_neg_numeral:
  "numeral n < (2::int) ^ 53 \<Longrightarrow> binary64 (- numeral n) = Fin (- numeral n)"
  using binary64_of_int[of "- numeral n"] by simp

lemma binary64_0: "binary64 0 = Fin 0"
  by (simp add: binary64_def)

lemma binary64_1: "binary64 1 = Fin 1"
  using binary64_of_int[of 1] by simp

lemmas binary64_ints = binary64_numeral binary64_neg_numeral binary64_0 binary64_1





text \<open>
  Where rounding shows: a text of 14 characters and 150 pixels for a width of 75.
  The quotient of 150 and 14 is no double, the quotient of 75 and its rounding is
  a little above 7, and one character more is dropped than without rounding.
\<close>

lemma keepChars_rounded:
  "keepChars binary64 (Fin 150) (ascii ''WWWWWWWWWWWWii'') (Fin 75) = Fin 3"
  by code_simp

lemma keepChars_not_rounded:
  "keepChars exact (Fin 150) (ascii ''WWWWWWWWWWWWii'') (Fin 75) = Fin 4"
  by code_simp

section \<open>The shortening loop\<close>

lemmas eval_defs = ascii_def keepChars_def js_length_def js_trunc_def glyph_width_def
  proportional_font_def proportional_measure_def Let_def dot_def binary64_ints

lemmas ts_defs = TextShortener_def TextShortener_measureText_def measureText_def

text \<open>One iteration of the loop, with the value of \<open>keepChars\<close> named.\<close>

lemma getShortened_loop_unfold:
  "getShortened_loop rd width mf cls this short sh =
     (let w = width_of (fst (mf this short cls)); this' = snd (mf this short cls)
      in if js_less w width then Some (short @ (if sh then [dot, dot, dot] else []), this')
         else if js_less (keepChars rd w short width) (Fin 1) then Some ([dot], this')
         else getShortened_loop rd width mf cls this'
                (substring0 short (keepChars rd w short width)) True)"
  by (subst getShortened_loop.simps) (simp add: Let_def split_def keepChars_def)

lemma loop_fits:
  "js_less (width_of (fst (mf this short cls))) width \<Longrightarrow>
   getShortened_loop rd width mf cls this short sh =
     Some (short @ (if sh then [dot, dot, dot] else []), snd (mf this short cls))"
  by (subst getShortened_loop_unfold) (simp add: Let_def)

text \<open>
  An iteration that neither leaves the loop nor changes the candidate or the
  state repeats forever: no run that returns passes through it.
\<close>

lemma loop_stuck_aux:
  assumes m: "mf this short cls = (m, this)"
    and nofit: "\<not> js_less (width_of m) width"
    and keep: "\<not> js_less (keepChars rd (width_of m) short width) (Fin 1)"
    and same: "substring0 short (keepChars rd (width_of m) short width) = short"
    and run: "getShortened_loop rd' width' mf' cls' this' short' sh' = Some y"
  shows "(rd', width', mf', cls', this', short') \<noteq> (rd, width, mf, cls, this, short)"
proof (rule getShortened_loop.raw_induct
    [where P = "\<lambda>r a b c d e f y. (r, a, b, c, d, e) \<noteq> (rd, width, mf, cls, this, short)",
      OF _ run], goal_cases)
  case (1 loop r a b c d e f y)
  show ?case
  proof
    assume eq: "(r, a, b, c, d, e) = (rd, width, mf, cls, this, short)"
    with 1(2) m nofit keep same have "loop rd width mf cls this short True = Some y"
      by (simp add: Let_def keepChars_def)
    from 1(1)[OF this] show False by simp
  qed
qed

lemma loop_stuck:
  assumes "mf this short cls = (m, this)"
    and "\<not> js_less (width_of m) width"
    and "\<not> js_less (keepChars rd (width_of m) short width) (Fin 1)"
    and "substring0 short (keepChars rd (width_of m) short width) = short"
  shows "getShortened_loop rd width mf cls this short sh = None"
proof (cases "getShortened_loop rd width mf cls this short sh")
  case None
  then show ?thesis .
next
  case (Some y)
  with assms loop_stuck_aux[of mf this short cls m width rd rd width mf cls this short sh y]
  show ?thesis by simp
qed

text \<open>What \<open>substring(0, k)\<close> returns is a prefix, shorter unless it is the same.\<close>

lemma substring0_take: "\<exists>j. substring0 s k = take j s"
proof (cases k)
  case PInf
  have "s = take (length s) s" by simp
  with PInf show ?thesis by (metis substring0.simps(2))
qed (auto intro: exI[of _ 0])

lemma substring0_shorter:
  "substring0 s k \<noteq> s \<Longrightarrow> length (substring0 s k) < length s"
proof -
  assume ne: "substring0 s k \<noteq> s"
  obtain j where j: "substring0 s k = take j s" using substring0_take by blast
  with ne have "j < length s" by (cases "j < length s") auto
  with j show ?thesis by simp
qed

lemma substring0_prefix:
  "short = take (length short) text \<Longrightarrow>
   substring0 short k = take (length (substring0 short k)) text"
proof -
  assume p: "short = take (length short) text"
  obtain j where j: "substring0 short k = take j short" using substring0_take by blast
  have "take j short = take j (take (length short) text)" using p by simp
  also have "\<dots> = take (min j (length short)) text" by (simp add: min.commute)
  finally have "substring0 short k = take (min j (length short)) text" using j by simp
  moreover have "length (substring0 short k) = min j (length short)"
    using j by (simp add: min.commute)
  ultimately show ?thesis by simp
qed

text \<open>
  The shape of a result, for a measure function that answers a repeated question
  the same way and then leaves the state alone. By induction on the length of the
  candidate: an iteration returns, or shortens the candidate, or repeats forever.
\<close>

lemma loop_shape:
  assumes rep: "\<And>this short m this1.
      mf this short cls = (m, this1) \<Longrightarrow> mf this1 short cls = (m, this1)"
  shows "getShortened_loop rd width mf cls this short sh = Some (r, this') \<Longrightarrow>
         short = take (length short) text \<Longrightarrow>
         (sh \<longrightarrow> length short < length text) \<Longrightarrow> (\<not> sh \<longrightarrow> short = text) \<Longrightarrow>
         result_shape text r"
proof (induction "length short" arbitrary: short sh this rule: less_induct)
  case less
  let ?m = "fst (mf this short cls)"
  let ?this1 = "snd (mf this short cls)"
  let ?w = "width_of ?m"
  let ?k = "keepChars rd ?w short width"
  note run = less.prems(1)[unfolded getShortened_loop_unfold[of rd width mf cls this short sh]]
  consider (fits) "js_less ?w width"
    | (placeholder) "\<not> js_less ?w width" "js_less ?k (Fin 1)"
    | (retry) "\<not> js_less ?w width" "\<not> js_less ?k (Fin 1)"
    by blast
  then show ?case
  proof cases
    case fits
    with run have r: "r = short @ (if sh then [dot, dot, dot] else [])"
      by (simp add: Let_def)
    show ?thesis
    proof (cases sh)
      case True
      with r less.prems(2,3) show ?thesis
        unfolding result_shape_def by (metis (full_types))
    next
      case False
      with r less.prems(4) show ?thesis by (simp add: result_shape_def)
    qed
  next
    case placeholder
    with run show ?thesis by (simp add: Let_def result_shape_def)
  next
    case retry
    with run have next_run:
      "getShortened_loop rd width mf cls ?this1 (substring0 short ?k) True = Some (r, this')"
      by (simp add: Let_def)
    show ?thesis
    proof (cases "substring0 short ?k = short")
      case True
      have "mf ?this1 short cls = (?m, ?this1)" by (rule rep) simp
      from loop_stuck[of mf ?this1 short cls ?m width rd True, OF this retry True]
      show ?thesis using next_run True by simp
    next
      case False
      then have shorter: "length (substring0 short ?k) < length short"
        by (rule substring0_shorter)
      moreover have "length short \<le> length text"
        using arg_cong[OF less.prems(2), of length] by simp
      ultimately have strict: "length (substring0 short ?k) < length text" by simp
      from less.hyps[OF shorter next_run substring0_prefix[OF less.prems(2)]] strict
      show ?thesis by simp
    qed
  qed
qed

lemma result_shape_chars: "result_shape text r \<Longrightarrow> set r \<subseteq> set text \<union> {dot}"
  unfolding result_shape_def by (auto dest: in_set_takeD)

section \<open>The cache\<close>

lemma empty_not_inherited: "[] \<notin> set Object_prototype_names"
  by (simp add: Object_prototype_names_def ascii_def)

lemma measureText_cached:
  "cached this cls text = Some m \<Longrightarrow>
   TextShortener_measureText g this text cls = (Measured m, this)"
  by (auto simp: cached_def TextShortener_measureText_def Let_def map_upd_triv
      split: option.splits)

lemma measureText_stores:
  "TextShortener_measureText g this text cls = (Measured m, this') \<Longrightarrow>
   cached this' cls text = Some m"
  by (auto simp: cached_def TextShortener_measureText_def Let_def split_def
      split: option.splits if_splits)

lemma measureText_keeps:
  "cached this k t = Some v \<Longrightarrow>
   cached (snd (TextShortener_measureText g this text cls)) k t = Some v"
  by (auto simp: cached_def TextShortener_measureText_def Let_def split_def
      split: option.splits)

lemma measureText_calls_keep:
  "cached this k t = Some v \<Longrightarrow> cached (measureText_calls g this calls) k t = Some v"
proof (induction calls arbitrary: this)
  case Nil
  then show ?case by simp
next
  case (Cons c calls)
  obtain label cls where c: "c = (label, cls)" by (cases c)
  from Cons.prems
  have "cached (snd (TextShortener_measureText g this label cls)) k t = Some v"
    by (rule measureText_keeps)
  from Cons.IH[OF this] show ?case using c by simp
qed

text \<open>A text that finds no own entry and names no inherited property is measured.\<close>

lemma measureText_miss:
  "cached this cls text = None \<Longrightarrow> text \<notin> set Object_prototype_names \<Longrightarrow>
   fst (TextShortener_measureText g this text cls) =
     Measured (fst (measureText g (document this) text cls))"
  by (auto simp: cached_def TextShortener_measureText_def Let_def split_def
      split: option.splits)

text \<open>
  A text that names a property of \<open>Object.prototype\<close> and has no own entry
  gets the inherited property: the document is not touched and no entry is made.
\<close>

lemma measureText_inherited:
  assumes "cached this cls text = None" and "text \<in> set Object_prototype_names"
  shows "fst (TextShortener_measureText g this text cls) = Inherited"
    and "document (snd (TextShortener_measureText g this text cls)) = document this"
    and "cached (snd (TextShortener_measureText g this text cls)) k t = cached this k t"
  using assms
  by (auto simp: cached_def TextShortener_measureText_def Let_def split: option.splits)

lemma cached_after_measureText:
  "cached (snd (TextShortener_measureText g this label cls)) k t =
     (if k = cls \<and> t = label \<and> cached this cls label = None \<and>
         label \<notin> set Object_prototype_names
      then Some (fst (measureText g (document this) label cls))
      else cached this k t)"
  by (auto simp: cached_def TextShortener_measureText_def Let_def split_def
      split: option.splits)

text \<open>A question asked again gets the same answer and changes nothing.\<close>

lemma measureText_repeat:
  assumes "TextShortener_measureText g this text cls = (r, this1)"
  shows "TextShortener_measureText g this1 text cls = (r, this1)"
proof (cases r)
  case (Measured m)
  with assms show ?thesis by (auto intro: measureText_cached measureText_stores)
next
  case Inherited
  with assms show ?thesis
    by (auto simp: TextShortener_measureText_def Let_def split_def map_upd_triv
        split: option.splits if_splits)
qed

text \<open>
  In every state that calls of \<open>measureText\<close> reach from a new shortener, the
  entry of the empty text, if there is one, is the zero measurement.
\<close>

lemma empty_measured_zero:
  "cached (measureText_calls g (TextShortener d) calls) cls [] = Some m \<Longrightarrow>
   m = \<lparr>height_px = Fin 0, width_px = Fin 0\<rparr>"
proof -
  let ?zero = "\<lparr>height_px = Fin 0, width_px = Fin 0\<rparr>"
  have step: "\<forall>cls m. cached (snd (TextShortener_measureText g this label c)) cls [] = Some m
        \<longrightarrow> m = ?zero"
    if "\<forall>cls m. cached this cls [] = Some m \<longrightarrow> m = ?zero" for this label c
    using that
    by (auto simp: cached_after_measureText measureText_def split: if_splits)
  have inv: "\<forall>cls m. cached (measureText_calls g this calls) cls [] = Some m \<longrightarrow> m = ?zero"
    if "\<forall>cls m. cached this cls [] = Some m \<longrightarrow> m = ?zero" for this
    using that
  proof (induction calls arbitrary: this)
    case Nil
    then show ?case by simp
  next
    case (Cons c calls)
    obtain label k where c: "c = (label, k)" by (cases c)
    from Cons.IH[OF step[OF Cons.prems, of label k]] show ?case using c by simp
  qed
  have "\<forall>cls m. cached (TextShortener d) cls [] = Some m \<longrightarrow> m = ?zero"
    by (simp add: cached_def TextShortener_def)
  from inv[OF this]
  show "cached (measureText_calls g (TextShortener d) calls) cls [] = Some m \<Longrightarrow> m = ?zero"
    by blast
qed

lemma measure_empty:
  assumes "this = measureText_calls g (TextShortener d) calls"
  shows "fst (TextShortener_measureText g this [] cls) =
           Measured \<lparr>height_px = Fin 0, width_px = Fin 0\<rparr>"
proof (cases "cached this cls []")
  case None
  from measureText_miss[OF None empty_not_inherited, of g] show ?thesis
    by (simp add: measureText_def)
next
  case (Some m)
  from Some[unfolded assms] have "m = \<lparr>height_px = Fin 0, width_px = Fin 0\<rparr>"
    by (rule empty_measured_zero)
  with Some measureText_cached[OF Some] show ?thesis by simp
qed

section \<open>The empty text and a width that is not positive\<close>

text \<open>
  The empty text measures 0, so \<open>oneLetterApprox\<close> is \<open>0 / 0\<close>, which is NaN,
  and so is \<open>keepChars\<close>, whatever the rounding. NaN is not less than 1, and
  \<open>substring(0, NaN)\<close> of the empty text is the empty text again.
\<close>

lemma keepChars_empty: "keepChars rd (Fin 0) [] width = NaN"
  by (simp add: keepChars_def js_length_def)

lemma keepChars_NaN: "keepChars rd NaN short width = NaN"
  by (simp add: keepChars_def)

lemma empty_text_diverges:
  assumes reach: "this = measureText_calls g (TextShortener d) calls" and v: "v \<le> 0"
  shows "getShortened_loop rd (Fin v) (TextShortener_measureText g) cls this [] sh = None"
proof -
  let ?mf = "TextShortener_measureText g"
  let ?zero = "Measured \<lparr>height_px = Fin 0, width_px = Fin 0\<rparr>"
  let ?this1 = "snd (?mf this [] cls)"
  have mz: "fst (?mf this [] cls) = ?zero"
    by (rule measure_empty[OF reach])
  then have m: "?mf this [] cls = (?zero, ?this1)"
    by (simp add: prod_eq_iff)
  have again: "?mf ?this1 [] cls = (?zero, ?this1)" by (rule measureText_repeat[OF m])
  have stuck: "getShortened_loop rd (Fin v) ?mf cls ?this1 [] True = None"
    by (rule loop_stuck[where mf = ?mf and m = ?zero, OF again])
       (use v in \<open>simp_all add: keepChars_empty\<close>)
  show ?thesis
    by (subst getShortened_loop_unfold)
       (use mz v stuck in \<open>simp add: keepChars_empty Let_def\<close>)
qed

section \<open>A positive width, without rounding errors\<close>

text \<open>
  When the measured width \<open>q\<close> is positive and the candidate is not empty, no
  division by zero occurs, and without rounding errors \<open>keepChars\<close> is the
  integer that the formula of the source denotes.
\<close>

lemma keepChars_formula:
  assumes "0 < q" and "short \<noteq> []"
  shows "keepChars exact (Fin q) short (Fin v) =
     Fin (of_int (max 0 (int (length short)
        - \<lceil>(q - v) / (q / of_nat (length short))\<rceil> - 3)))"
proof -
  have len: "(of_nat (length short) :: rat) \<noteq> 0" using assms(2) by simp
  then have avg: "q / of_nat (length short) \<noteq> 0" using assms(1) by simp
  show ?thesis
    using len avg by (simp add: keepChars_def js_length_def max_def exact_def)
qed

lemma keepChars_no_length:
  assumes "0 < q"
  shows "keepChars exact (Fin q) [] (Fin v) = Fin 0"
  using assms by (simp add: keepChars_def js_length_def exact_def)

lemma measureText_nonneg:
  assumes g: "\<forall>d t c. \<exists>q\<ge>0. width_px (fst (g d t c)) = Fin q"
    and inv: "\<forall>k t m. cached this k t = Some m \<longrightarrow> (\<exists>q\<ge>0. width_px m = Fin q)"
    and m: "fst (TextShortener_measureText g this label cls) = Measured m"
  shows "\<exists>q\<ge>0. width_px m = Fin q"
proof (cases "cached this cls label")
  case None
  have meas: "\<exists>q\<ge>0. width_px (fst (measureText g (document this) label cls)) = Fin q"
    using g by (simp add: measureText_def)
  show ?thesis
  proof (cases "label \<in> set Object_prototype_names")
    case True
    from measureText_inherited(1)[OF None True, of g] m show ?thesis by simp
  next
    case False
    from measureText_miss[OF None False, of g] m meas show ?thesis by simp
  qed
next
  case (Some m')
  from inv Some have "\<exists>q\<ge>0. width_px m' = Fin q" by blast
  with measureText_cached[OF Some, of g] m show ?thesis by simp
qed

lemma measureText_keeps_nonneg:
  assumes g: "\<forall>d t c. \<exists>q\<ge>0. width_px (fst (g d t c)) = Fin q"
    and inv: "\<forall>k t m. cached this k t = Some m \<longrightarrow> (\<exists>q\<ge>0. width_px m = Fin q)"
  shows "\<forall>k t m. cached (snd (TextShortener_measureText g this label cls)) k t = Some m \<longrightarrow>
           (\<exists>q\<ge>0. width_px m = Fin q)"
proof -
  have meas: "\<exists>q\<ge>0. width_px (fst (measureText g (document this) label cls)) = Fin q"
    using g by (simp add: measureText_def)
  show ?thesis
    using inv meas by (auto simp: cached_after_measureText split: if_splits)
qed

text \<open>
  For a browser that reports finite widths that are not negative, and a target
  width above zero, the loop returns: an iteration that does not return keeps at
  most the length of the candidate minus 3 characters, or, when the candidate
  names an inherited property and so has no width, none.
\<close>

lemma loop_returns:
  assumes g: "\<forall>d t c. \<exists>q\<ge>0. width_px (fst (g d t c)) = Fin q"
    and v: "0 < v"
  shows "\<forall>k t m. cached this k t = Some m \<longrightarrow> (\<exists>q\<ge>0. width_px m = Fin q) \<Longrightarrow>
     \<exists>res. getShortened_loop exact (Fin v) (TextShortener_measureText g) cls this short sh
        = Some res"
proof (induction "length short" arbitrary: short sh this rule: less_induct)
  case less
  let ?mf = "TextShortener_measureText g"
  let ?this1 = "snd (?mf this short cls)"
  note inv1 = measureText_keeps_nonneg[OF g less.prems, of short cls]
  show ?case
  proof (cases "fst (?mf this short cls)")
    case Inherited
    have "short \<in> set Object_prototype_names"
    proof (rule ccontr)
      assume no: "short \<notin> set Object_prototype_names"
      show False
      proof (cases "cached this cls short")
        case None
        from measureText_miss[OF None no, of g] Inherited show False by simp
      next
        case (Some m)
        from measureText_cached[OF Some, of g] Inherited show False by simp
      qed
    qed
    then have "short \<noteq> []" using empty_not_inherited by auto
    then have "length ([]::jsstring) < length short" by simp
    from less.hyps[OF this inv1, of True] obtain res where
      "getShortened_loop exact (Fin v) ?mf cls ?this1 [] True = Some res"
      by blast
    with Inherited show ?thesis
      by (subst getShortened_loop_unfold) (simp add: Let_def keepChars_NaN)
  next
    case (Measured m)
    from measureText_nonneg[OF g less.prems Measured]
    obtain q where q: "0 \<le> q" "width_px m = Fin q" by blast
    show ?thesis
    proof (cases "q < v")
      case True
      with q Measured show ?thesis by (subst getShortened_loop_unfold) (simp add: Let_def)
    next
      case False
      with v have qpos: "0 < q" by simp
      show ?thesis
      proof (cases "short = []")
        case True
        with False q qpos Measured show ?thesis
          by (subst getShortened_loop_unfold) (simp add: Let_def keepChars_no_length)
      next
        case ne: False
        define c where "c = \<lceil>(q - v) / (q / of_nat (length short))\<rceil>"
        define z where "z = int (length short) - c - 3"
        have k: "keepChars exact (Fin q) short (Fin v) = Fin (of_int (max 0 z))"
          unfolding z_def c_def by (rule keepChars_formula[OF qpos ne])
        have "0 \<le> (q - v) / (q / of_nat (length short))" using False qpos by simp
        then have c0: "0 \<le> c" unfolding c_def by (simp only: zero_le_ceiling)
        show ?thesis
        proof (cases "z < 1")
          case True
          with False q k Measured show ?thesis
            by (subst getShortened_loop_unfold) (simp add: Let_def)
        next
          case zbig: False
          then have mz: "max 0 z = z" by simp
          have "nat z < length short" using c0 zbig unfolding z_def by linarith
          then have "length (take (nat z) short) < length short" by simp
          from less.hyps[OF this inv1, of True] obtain res where
            "getShortened_loop exact (Fin v) ?mf cls ?this1 (take (nat z) short) True
               = Some res"
            by blast
          with False q k zbig Measured show ?thesis
            by (subst getShortened_loop_unfold) (simp add: Let_def mz js_trunc_of_int)
        qed
      qed
    qed
  qed
qed

lemma reachable_nonneg:
  assumes g: "\<forall>d t c. \<exists>q\<ge>0. width_px (fst (g d t c)) = Fin q"
  shows "\<forall>k t m. cached (measureText_calls g (TextShortener d) calls) k t = Some m \<longrightarrow>
           (\<exists>q\<ge>0. width_px m = Fin q)"
proof -
  have inv: "\<forall>k t m. cached (measureText_calls g this calls) k t = Some m \<longrightarrow>
           (\<exists>q\<ge>0. width_px m = Fin q)"
    if "\<forall>k t m. cached this k t = Some m \<longrightarrow> (\<exists>q\<ge>0. width_px m = Fin q)" for this
    using that
  proof (induction calls arbitrary: this)
    case Nil
    then show ?case by simp
  next
    case (Cons c calls)
    obtain label k where c: "c = (label, k)" by (cases c)
    from Cons.IH[OF measureText_keeps_nonneg[OF g Cons.prems, of label k]]
    show ?case using c by simp
  qed
  have "\<forall>k t m. cached (TextShortener d) k t = Some m \<longrightarrow> (\<exists>q\<ge>0. width_px m = Fin q)"
    by (simp add: cached_def TextShortener_def)
  from inv[OF this] show ?thesis .
qed

lemma getShortened_returns:
  assumes g: "\<forall>d t c. \<exists>q\<ge>0. width_px (fst (g d t c)) = Fin q"
    and v: "0 < v"
  shows "\<exists>res. TextShortener_getShortened exact g text (Fin v) cls
           (measureText_calls g (TextShortener d) calls) = Some res"
  unfolding TextShortener_getShortened_def getShortened_def
  by (rule loop_returns[OF g v reachable_nonneg[OF g]])

section \<open>Properties of the shortening\<close>

lemmas run_defs = TextShortener_def TextShortener_measureText_def measureText_def
  Object_prototype_names_def

lemma shorten_example:
  "getShortened binary64 (ascii ''iiiiiiiiWWWW'') (Fin 66) proportional_measure () 0 =
     Some (ascii ''iiiiiiii...'', 2)"
  unfolding getShortened_def
  apply (subst getShortened_loop_unfold)
  apply (simp add: eval_defs)
  apply (subst getShortened_loop_unfold)
  apply (simp add: eval_defs)
  done

lemma shorten_cached_example:
  "\<exists>this'. TextShortener_getShortened binary64 proportional_font (ascii ''WWWWiiiiiiii'')
       (Fin 66) highcharts_axis_labels (TextShortener 0) =
     Some (ascii ''WWWWiiii...'', this')"
  unfolding getShortened_def TextShortener_getShortened_def
  apply (subst getShortened_loop_unfold)
  apply (simp add: eval_defs run_defs)
  apply (subst getShortened_loop_unfold)
  apply (simp add: eval_defs run_defs)
  done

lemma shorten_placeholder_example:
  "\<exists>this'. TextShortener_getShortened binary64 proportional_font (ascii ''WWWW'') (Fin 12)
       highcharts_axis_labels (TextShortener 0) = Some ([dot], this')"
  unfolding getShortened_def TextShortener_getShortened_def
  apply (subst getShortened_loop_unfold)
  apply (simp add: eval_defs run_defs)
  done

lemma shorten_fitting_example:
  "\<exists>this'. TextShortener_getShortened binary64 proportional_font (ascii ''Wi'') (Fin 66)
       highcharts_axis_labels (TextShortener 0) = Some (ascii ''Wi'', this')"
  unfolding getShortened_def TextShortener_getShortened_def
  apply (subst getShortened_loop_unfold)
  apply (simp add: eval_defs run_defs)
  done

text \<open>
  A text that names a property of \<open>Object.prototype\<close> is not measured: its
  width is \<open>undefined\<close>, \<open>keepChars\<close> is NaN, the candidate becomes the empty
  text, and three dots are returned.
\<close>

lemma shorten_inherited_example:
  "\<exists>this'. TextShortener_getShortened binary64 proportional_font (ascii ''constructor'')
       (Fin 66) highcharts_axis_labels (TextShortener 0) = Some ([dot, dot, dot], this')"
  unfolding getShortened_def TextShortener_getShortened_def
  apply (subst getShortened_loop_unfold)
  apply (simp add: eval_defs run_defs keepChars_NaN[unfolded keepChars_def])
  apply (subst getShortened_loop_unfold)
  apply (simp add: eval_defs run_defs)
  done

text \<open>
  C1: the text that \<open>getShortened\<close> returns, measured by the cached measure
  function, is at most as wide as the target width, or it is the placeholder
  \<open>"."\<close>. The loop measures the candidate without the three dots it appends
  and leaves room for them by dropping three characters of average width. With
  the proportional font of the examples the text \<open>"WWWWiiiiiiii"\<close> (72 pixels)
  and the width 66 give the candidate \<open>"WWWWiiii"\<close> (60 pixels), which passes
  the test, and the result \<open>"WWWWiiii..."\<close> measures 69 pixels: wider than 66,
  and not the placeholder. The arithmetic is that of the machine.
\<close>

theorem getShortened_result_exceeds_width:
  "measured_width proportional_font highcharts_axis_labels
     (TextShortener_getShortened binary64 proportional_font (ascii ''WWWWiiiiiiii'') (Fin 66)
        highcharts_axis_labels (TextShortener 0)) =
     Some (ascii ''WWWWiiii...'', Fin 69) \<and>
   js_less (Fin 66) (Fin 69) \<and> ascii ''WWWWiiii...'' \<noteq> [dot]"
  unfolding getShortened_def TextShortener_getShortened_def measured_width_def
  apply (subst getShortened_loop_unfold)
  apply (simp add: eval_defs run_defs)
  apply (subst getShortened_loop_unfold)
  apply (simp add: eval_defs run_defs)
  done

text \<open>
  C2: \<open>getShortened\<close> returns a text that already fits unchanged: if the
  measured width of \<open>s\<close> is below \<open>w\<close>, the result is \<open>s\<close>. Hence a result
  of \<open>getShortened\<close> that fits is returned unchanged when it is shortened
  again. This holds for every measure function, every state and every rounding.
\<close>

theorem getShortened_fitting_unchanged:
  "(js_less (width_of (fst (mf this s cls))) w \<longrightarrow>
      getShortened rd s w mf cls this = Some (s, snd (mf this s cls))) \<and>
   (getShortened rd t w mf cls before = Some (r, after) \<and>
    js_less (width_of (fst (mf after r cls))) w \<longrightarrow>
      getShortened rd r w mf cls after = Some (r, snd (mf after r cls)))"
  by (simp add: getShortened_def loop_fits)

theorem getShortened_fitting_unchanged_witness:
  "js_less (width_of (fst (proportional_measure 0 (ascii ''Wi'') ()))) (Fin 66) \<and>
   getShortened binary64 (ascii ''Wi'') (Fin 66) proportional_measure () 0 =
     Some (ascii ''Wi'', 1) \<and>
   getShortened binary64 (ascii ''iiiiiiiiWWWW'') (Fin 66) proportional_measure () 0 =
     Some (ascii ''iiiiiiii...'', 2) \<and>
   js_less (width_of (fst (proportional_measure 2 (ascii ''iiiiiiii...'') ()))) (Fin 66) \<and>
   getShortened binary64 (ascii ''iiiiiiii...'') (Fin 66) proportional_measure () 2 =
     Some (ascii ''iiiiiiii...'', 3)"
proof -
  have fits1: "js_less (width_of (fst (proportional_measure 0 (ascii ''Wi'') ()))) (Fin 66)"
    by (simp add: eval_defs)
  have fits2:
    "js_less (width_of (fst (proportional_measure 2 (ascii ''iiiiiiii...'') ()))) (Fin 66)"
    by (simp add: eval_defs)
  note inst = getShortened_fitting_unchanged
    [where mf = proportional_measure and this = 0 and s = "ascii ''Wi''" and cls = "()"
       and w = "Fin 66" and t = "ascii ''iiiiiiiiWWWW''" and before = 0
       and r = "ascii ''iiiiiiii...''" and after = 2 and rd = binary64]
  from inst fits1
  have a: "getShortened binary64 (ascii ''Wi'') (Fin 66) proportional_measure () 0 =
      Some (ascii ''Wi'', snd (proportional_measure 0 (ascii ''Wi'') ()))" by blast
  from inst fits2 shorten_example
  have b: "getShortened binary64 (ascii ''iiiiiiii...'') (Fin 66) proportional_measure () 2 =
      Some (ascii ''iiiiiiii...'', snd (proportional_measure 2 (ascii ''iiiiiiii...'') ()))"
    by blast
  have s1: "snd (proportional_measure 0 (ascii ''Wi'') ()) = 1"
    and s2: "snd (proportional_measure 2 (ascii ''iiiiiiii...'') ()) = 3"
    by (simp_all add: proportional_measure_def)
  from fits1 fits2 a b shorten_example show ?thesis unfolding s1 s2 by blast
qed

text \<open>
  C3: the loop of \<open>getShortened\<close> terminates for every text and width. For the
  empty text and the width 0 it does not: in every state of the shortener, with
  every browser and every rounding,
  \<open>TextShortener.getShortened("", 0, className)\<close> never returns. For a width
  above zero, without rounding errors, it does return
  (\<open>getShortened_returns\<close>).
\<close>

theorem getShortened_empty_text_never_returns:
  "TextShortener_getShortened rd g [] (Fin 0) cls
     (measureText_calls g (TextShortener d) calls) = None"
  unfolding TextShortener_getShortened_def getShortened_def
  by (rule empty_text_diverges[OF refl]) simp

text \<open>
  C4: in an iteration whose candidate is still too wide, the number of characters
  kept is the length of the candidate minus \<open>ceil(overlap / averageCharacterWidth)\<close>
  minus 3, floored at 0, and if that number is below 1 the function returns
  \<open>"."\<close>. For the empty text and the width 0 the measured width is 0, the
  average character width is \<open>0 / 0\<close> and \<open>keepChars\<close> is NaN, which the test
  \<open>keepChars < 1\<close> lets through; no character is kept, and the function does
  not return the placeholder: it does not return.
\<close>

theorem keepChars_NaN_passes_guard:
  "keepChars rd (width_of (fst (TextShortener_measureText g (TextShortener d) [] cls))) []
     (Fin 0) = NaN \<and>
   js_less NaN (Fin 1) = False \<and>
   length (substring0 [] NaN) = 0 \<and>
   TextShortener_getShortened rd g [] (Fin 0) cls (TextShortener d) = None"
proof -
  have reach: "TextShortener d = measureText_calls g (TextShortener d) []" by simp
  have "fst (TextShortener_measureText g (TextShortener d) [] cls) =
      Measured \<lparr>height_px = Fin 0, width_px = Fin 0\<rparr>"
    by (rule measure_empty[OF reach])
  moreover have "TextShortener_getShortened rd g [] (Fin 0) cls (TextShortener d) = None"
    unfolding TextShortener_getShortened_def getShortened_def
    by (rule empty_text_diverges[OF reach]) simp
  ultimately show ?thesis by (simp add: keepChars_empty)
qed

text \<open>
  C9: a value returned by \<open>getShortened\<close>, called as the plugin calls it through
  \<open>TextShortener.getShortened\<close>, is the text itself, or the placeholder
  \<open>"."\<close>, or a strict prefix of the text followed by three dots; so its
  characters are characters of the text or dots. This holds for every browser,
  every state of the cache and every rounding.
\<close>

theorem getShortened_result_shape:
  "TextShortener_getShortened rd g text width cls this = Some (r, this') \<Longrightarrow>
   result_shape text r \<and> set r \<subseteq> set text \<union> {dot}"
proof -
  assume run: "TextShortener_getShortened rd g text width cls this = Some (r, this')"
  have "result_shape text r"
    using run unfolding TextShortener_getShortened_def getShortened_def
    by (rule loop_shape[rotated]) (auto intro: measureText_repeat)
  with result_shape_chars[where r = r] show ?thesis by blast
qed

theorem getShortened_result_shape_witness:
  "(\<exists>this'. TextShortener_getShortened binary64 proportional_font (ascii ''WWWWiiiiiiii'')
       (Fin 66) highcharts_axis_labels (TextShortener 0) =
     Some (ascii ''WWWWiiii...'', this')) \<and>
   result_shape (ascii ''WWWWiiiiiiii'') (ascii ''WWWWiiii...'') \<and>
   set (ascii ''WWWWiiii...'') \<subseteq> set (ascii ''WWWWiiiiiiii'') \<union> {dot} \<and>
   (\<exists>this'. TextShortener_getShortened binary64 proportional_font (ascii ''WWWW'') (Fin 12)
       highcharts_axis_labels (TextShortener 0) = Some ([dot], this')) \<and>
   result_shape (ascii ''WWWW'') [dot] \<and>
   (\<exists>this'. TextShortener_getShortened binary64 proportional_font (ascii ''Wi'') (Fin 66)
       highcharts_axis_labels (TextShortener 0) = Some (ascii ''Wi'', this')) \<and>
   result_shape (ascii ''Wi'') (ascii ''Wi'') \<and>
   (\<exists>this'. TextShortener_getShortened binary64 proportional_font (ascii ''constructor'')
       (Fin 66) highcharts_axis_labels (TextShortener 0) = Some ([dot, dot, dot], this')) \<and>
   result_shape (ascii ''constructor'') [dot, dot, dot]"
proof -
  from shorten_cached_example obtain this1 where
    run1: "TextShortener_getShortened binary64 proportional_font (ascii ''WWWWiiiiiiii'')
       (Fin 66) highcharts_axis_labels (TextShortener 0) =
     Some (ascii ''WWWWiiii...'', this1)" ..
  from shorten_placeholder_example obtain this2 where
    run2: "TextShortener_getShortened binary64 proportional_font (ascii ''WWWW'') (Fin 12)
       highcharts_axis_labels (TextShortener 0) = Some ([dot], this2)" ..
  from shorten_fitting_example obtain this3 where
    run3: "TextShortener_getShortened binary64 proportional_font (ascii ''Wi'') (Fin 66)
       highcharts_axis_labels (TextShortener 0) = Some (ascii ''Wi'', this3)" ..
  from shorten_inherited_example obtain this4 where
    run4: "TextShortener_getShortened binary64 proportional_font (ascii ''constructor'')
       (Fin 66) highcharts_axis_labels (TextShortener 0) = Some ([dot, dot, dot], this4)" ..
  from getShortened_result_shape[OF run1] getShortened_result_shape[OF run2]
    getShortened_result_shape[OF run3] getShortened_result_shape[OF run4]
    run1 run2 run3 run4
  show ?thesis by blast
qed

section \<open>Properties of the cache\<close>

text \<open>
  C7: the cache maps a class name and a text to the measurement made for them, and
  an entry stays as it is: whatever calls of \<open>measureText\<close> follow, an entry is
  still there with the same value, and a call for it returns that value and
  leaves the cache and the document as they were, so nothing is measured again.
  A call that returns a measurement has it stored. A call that finds no entry,
  for a text that names no inherited property, returns what \<open>measureText\<close>
  measures. (A text that names an inherited property is never measured and gets
  no entry: \<open>measureText_inherited\<close>.)
\<close>

theorem measureText_cache_immutable:
  "(cached this k t = Some v \<longrightarrow>
      cached (measureText_calls g this calls) k t = Some v \<and>
      TextShortener_measureText g (measureText_calls g this calls) t k =
        (Measured v, measureText_calls g this calls)) \<and>
   (TextShortener_measureText g this label cls = (Measured m, after) \<longrightarrow>
      cached after cls label = Some m \<and>
      cached (measureText_calls g after calls) cls label = Some m \<and>
      TextShortener_measureText g (measureText_calls g after calls) label cls =
        (Measured m, measureText_calls g after calls)) \<and>
   (cached this cls label = None \<and> label \<notin> set Object_prototype_names \<longrightarrow>
      fst (TextShortener_measureText g this label cls) =
        Measured (fst (measureText g (document this) label cls)))"
proof -
  have keep: "cached (measureText_calls g s calls) k' t' = Some v' \<and>
      TextShortener_measureText g (measureText_calls g s calls) t' k' =
        (Measured v', measureText_calls g s calls)"
    if "cached s k' t' = Some v'" for s k' t' v'
  proof -
    from that have "cached (measureText_calls g s calls) k' t' = Some v'"
      by (rule measureText_calls_keep)
    then show ?thesis by (simp add: measureText_cached)
  qed
  show ?thesis
    using keep measureText_stores[of g this label cls m after]
      measureText_miss[of this cls label g]
    by blast
qed

theorem measureText_cache_immutable_witness:
  "TextShortener_measureText proportional_font (TextShortener 0) (ascii ''Wi'')
       highcharts_axis_labels =
     (Measured \<lparr>height_px = Fin 14, width_px = Fin 15\<rparr>,
      snd (TextShortener_measureText proportional_font (TextShortener 0) (ascii ''Wi'')
             highcharts_axis_labels)) \<and>
   document (measureText_calls proportional_font
       (snd (TextShortener_measureText proportional_font (TextShortener 0) (ascii ''Wi'')
               highcharts_axis_labels))
       [(ascii ''W'', highcharts_axis_labels),
        (ascii ''constructor'', highcharts_axis_labels)]) = 2 \<and>
   TextShortener_measureText proportional_font
     (measureText_calls proportional_font
       (snd (TextShortener_measureText proportional_font (TextShortener 0) (ascii ''Wi'')
               highcharts_axis_labels))
       [(ascii ''W'', highcharts_axis_labels),
        (ascii ''constructor'', highcharts_axis_labels)])
     (ascii ''Wi'') highcharts_axis_labels =
     (Measured \<lparr>height_px = Fin 14, width_px = Fin 15\<rparr>,
      measureText_calls proportional_font
       (snd (TextShortener_measureText proportional_font (TextShortener 0) (ascii ''Wi'')
               highcharts_axis_labels))
       [(ascii ''W'', highcharts_axis_labels),
        (ascii ''constructor'', highcharts_axis_labels)])"
proof -
  let ?this1 = "snd (TextShortener_measureText proportional_font (TextShortener 0)
      (ascii ''Wi'') highcharts_axis_labels)"
  let ?m = "\<lparr>height_px = Fin 14, width_px = Fin 15\<rparr>"
  let ?calls = "[(ascii ''W'', highcharts_axis_labels),
      (ascii ''constructor'', highcharts_axis_labels)]"
  have first: "TextShortener_measureText proportional_font (TextShortener 0) (ascii ''Wi'')
      highcharts_axis_labels = (Measured ?m, ?this1)"
    by (simp add: prod_eq_iff eval_defs run_defs)
  have doc: "document (measureText_calls proportional_font ?this1 ?calls) = 2"
    by (simp add: eval_defs run_defs)
  from measureText_cache_immutable[where g = proportional_font and calls = ?calls
      and this = "TextShortener 0" and label = "ascii ''Wi''"
      and cls = highcharts_axis_labels and m = ?m and after = ?this1] first
  have "TextShortener_measureText proportional_font
      (measureText_calls proportional_font ?this1 ?calls) (ascii ''Wi'')
      highcharts_axis_labels =
        (Measured ?m, measureText_calls proportional_font ?this1 ?calls)"
    by blast
  with first doc show ?thesis by blast
qed

section \<open>Properties of the tick positioner\<close>

text \<open>Indices are non-negative integers, so \<open>idx % skip\<close> is the remainder of naturals.\<close>

lemma js_mod_index:
  assumes "0 < s"
  shows "js_mod (Fin (of_nat i)) (Fin (of_int s)) = Fin (of_int (int i mod s))"
proof -
  have nz: "(of_int s :: rat) \<noteq> 0" using assms by simp
  have nonneg: "(0::rat) \<le> of_nat i / of_int s" using assms by simp
  have "\<lfloor>(of_nat i :: rat) / of_int s\<rfloor> = int i div s"
    using floor_divide_of_int_eq[of "int i" s, where ?'a = rat] by simp
  with nonneg have tr: "js_trunc (of_nat i / of_int s) = int i div s"
    by (simp add: js_trunc_def)
  have "(of_nat i :: rat) - of_int s * of_int (int i div s) = of_int (int i - s * (int i div s))"
    by simp
  also have "int i - s * (int i div s) = int i mod s"
    by (simp add: minus_mult_div_eq_mod)
  finally show ?thesis using nz tr by simp
qed

lemma index_kept_iff:
  assumes "0 < s"
  shows "js_strict_eq (js_mod (Fin (of_nat i)) (Fin (of_int s))) (Fin 0) \<longleftrightarrow> i mod nat s = 0"
proof -
  have "int (i mod nat s) = int i mod s" using assms by (simp add: zmod_int)
  then have "(int i mod s = 0) = (i mod nat s = 0)" by (metis of_nat_eq_0_iff)
  then show ?thesis unfolding js_mod_index[OF assms] by simp
qed

lemma tickPositioner_js:
  "tickPositioner rd rot pw cats =
     filter (\<lambda>i. js_strict_eq (js_mod (Fin (of_nat i))
        (js_ceil (js_div rd (Fin (of_nat (length cats)))
           (js_floor (js_div rd pw (if rot then Fin 20 else Fin 80)))))) (Fin 0))
       [0..<length cats]"
  by (simp add: tickPositioner_def Let_def)

text \<open>
  With room for one tick at least, and a rounding that carries neither of the
  two quotients across an integer, \<open>skip\<close> is the integer of the formula.
\<close>

lemma tickPositioner_ticks_rounded:
  fixes p y z :: rat
  assumes t: "1 \<le> \<lfloor>p / (if rot then 20 else 80)\<rfloor>"
    and y: "rd (p / (if rot then 20 else 80)) = Fin y"
      "\<lfloor>y\<rfloor> = \<lfloor>p / (if rot then 20 else 80)\<rfloor>"
    and z: "rd (of_nat (length cats) / of_int \<lfloor>p / (if rot then 20 else 80)\<rfloor>) = Fin z"
      "\<lceil>z\<rceil> = \<lceil>(of_nat (length cats) :: rat) / of_int \<lfloor>p / (if rot then 20 else 80)\<rfloor>\<rceil>"
  shows "tickPositioner rd rot (Fin p) cats =
     filter (\<lambda>i. i mod nat \<lceil>(of_nat (length cats) :: rat) /
                             of_int \<lfloor>p / (if rot then 20 else 80)\<rfloor>\<rceil> = 0)
       [0..<length cats]"
proof -
  define t where "t = \<lfloor>p / (if rot then 20 else 80)\<rfloor>"
  define n where "n = length cats"
  define s where "s = \<lceil>(of_nat n :: rat) / of_int t\<rceil>"
  have t1: "1 \<le> t" using t by (simp only: t_def)
  then have tnz: "(of_int t :: rat) \<noteq> 0" by simp
  have ticks: "js_floor (js_div rd (Fin p) (if rot then Fin 20 else Fin 80)) = Fin (of_int t)"
    using y by (cases rot) (simp_all add: t_def)
  have skip: "js_ceil (js_div rd (Fin (of_nat n)) (Fin (of_int t))) = Fin (of_int s)"
    using tnz z by (simp add: s_def n_def t_def)
  have keep: "js_strict_eq (js_mod (Fin (of_nat i)) (Fin (of_int s))) (Fin 0) \<longleftrightarrow> i mod nat s = 0"
    if "i \<in> set [0..<n]" for i
  proof -
    from that have "0 < n" by simp
    with t1 have "(0::rat) < of_nat n / of_int t" by simp
    then have "0 < s" by (simp add: s_def)
    then show ?thesis by (rule index_kept_iff)
  qed
  have "tickPositioner rd rot (Fin p) cats =
      filter (\<lambda>i. js_strict_eq (js_mod (Fin (of_nat i)) (Fin (of_int s))) (Fin 0)) [0..<n]"
    unfolding tickPositioner_js ticks by (simp only: skip n_def[symmetric])
  also have "\<dots> = filter (\<lambda>i. i mod nat s = 0) [0..<n]"
    by (rule filter_cong[OF refl]) (rule keep)
  finally show ?thesis by (simp only: s_def n_def t_def)
qed

lemma tickPositioner_ticks:
  fixes p :: rat
  assumes t: "1 \<le> \<lfloor>p / (if rot then 20 else 80)\<rfloor>"
  shows "tickPositioner exact rot (Fin p) cats =
     filter (\<lambda>i. i mod nat \<lceil>(of_nat (length cats) :: rat) /
                             of_int \<lfloor>p / (if rot then 20 else 80)\<rfloor>\<rceil> = 0)
       [0..<length cats]"
  by (rule tickPositioner_ticks_rounded[OF t]) (simp_all add: exact_def)

lemma tickPositioner_no_ticks:
  fixes p :: rat
  assumes t: "\<lfloor>p / (if rot then 20 else 80)\<rfloor> = 0"
  shows "tickPositioner exact rot (Fin p) cats = (if cats = [] then [] else [0])"
proof (cases cats)
  case Nil
  then show ?thesis by (simp add: tickPositioner_js)
next
  case (Cons c cs)
  have "js_floor (js_div exact (Fin p) (if rot then Fin 20 else Fin 80)) =
      Fin (of_int \<lfloor>p / (if rot then 20 else 80)\<rfloor>)"
    by (simp add: exact_def)
  then have ticks: "js_floor (js_div exact (Fin p) (if rot then Fin 20 else Fin 80)) = Fin 0"
    by (simp only: t of_int_0)
  have "filter (\<lambda>i. i = 0) [0..<Suc (length cs)] = [0]"
    by (simp add: upt_conv_Cons del: upt_Suc)
  then show ?thesis
    unfolding tickPositioner_js ticks using Cons by simp
qed


lemma tickPositioner_increasing: "sorted_wrt (<) (tickPositioner rd rot pw cats)"
  unfolding tickPositioner_js by (rule sorted_wrt_filter) (rule sorted_wrt_upt)

text \<open>Two quotients of the examples, rounded by the machine.\<close>

lemma binary64_5_2: "binary64 (5 / 2) = Fin (5 / 2)"
  by code_simp


text \<open>
  C5: the tick positioner computes \<open>skip\<close> as
  \<open>ceil(categoryCount / floor(plotWidth / perTickWidth))\<close>, where
  \<open>perTickWidth\<close> is 20 for rotated labels and 80 otherwise, and returns the
  indices \<open>i\<close> of the categories with \<open>i % skip === 0\<close>, in increasing order.
  This is stated in the arithmetic of JavaScript for every plot width and every
  rounding, and in the arithmetic of integers for a finite plot width that has
  room for one tick at least: without rounding errors, and with any rounding
  that carries neither quotient across an integer. When there is room for no
  tick, \<open>skip\<close> is \<open>Infinity\<close> and index 0 alone is returned.
\<close>

theorem tickPositioner_skip:
  "tickPositioner rd rot pw cats =
     filter (\<lambda>i. js_strict_eq (js_mod (Fin (of_nat i))
        (js_ceil (js_div rd (Fin (of_nat (length cats)))
           (js_floor (js_div rd pw (if rot then Fin 20 else Fin 80)))))) (Fin 0))
       [0..<length cats] \<and>
   sorted_wrt (<) (tickPositioner rd rot pw cats) \<and>
   (\<forall>p. pw = Fin p \<and> 1 \<le> \<lfloor>p / (if rot then 20 else 80)\<rfloor> \<longrightarrow>
      tickPositioner exact rot pw cats =
        filter (\<lambda>i. i mod nat \<lceil>(of_nat (length cats) :: rat) /
                                of_int \<lfloor>p / (if rot then 20 else 80)\<rfloor>\<rceil> = 0)
          [0..<length cats]) \<and>
   (\<forall>p. pw = Fin p \<and> \<lfloor>p / (if rot then 20 else 80)\<rfloor> = 0 \<longrightarrow>
      tickPositioner exact rot pw cats = (if cats = [] then [] else [0])) \<and>
   (\<forall>p y z. pw = Fin p \<and> 1 \<le> \<lfloor>p / (if rot then 20 else 80)\<rfloor> \<and>
      rd (p / (if rot then 20 else 80)) = Fin y \<and>
      \<lfloor>y\<rfloor> = \<lfloor>p / (if rot then 20 else 80)\<rfloor> \<and>
      rd (of_nat (length cats) / of_int \<lfloor>p / (if rot then 20 else 80)\<rfloor>) = Fin z \<and>
      \<lceil>z\<rceil> = \<lceil>(of_nat (length cats) :: rat) / of_int \<lfloor>p / (if rot then 20 else 80)\<rfloor>\<rceil> \<longrightarrow>
      tickPositioner rd rot pw cats =
        filter (\<lambda>i. i mod nat \<lceil>(of_nat (length cats) :: rat) /
                                of_int \<lfloor>p / (if rot then 20 else 80)\<rfloor>\<rceil> = 0)
          [0..<length cats])"
  using tickPositioner_js[of rd rot pw cats] tickPositioner_increasing[of rd rot pw cats]
    tickPositioner_ticks[of _ rot cats] tickPositioner_no_ticks[of _ rot cats]
    tickPositioner_ticks_rounded[of _ rot rd _ cats]
  by blast

theorem tickPositioner_skip_witness:
  "(1::int) \<le> \<lfloor>(160::rat) / 80\<rfloor> \<and>
   nat \<lceil>(of_nat (length five_categories) :: rat) / of_int \<lfloor>(160::rat) / 80\<rfloor>\<rceil> = 3 \<and>
   tickPositioner exact False (Fin 160) five_categories = [0, 3] \<and>
   (1::int) \<le> \<lfloor>(60::rat) / 20\<rfloor> \<and>
   nat \<lceil>(of_nat (length five_categories) :: rat) / of_int \<lfloor>(60::rat) / 20\<rfloor>\<rceil> = 2 \<and>
   tickPositioner exact True (Fin 60) five_categories = [0, 2, 4] \<and>
   \<lfloor>(79::rat) / 80\<rfloor> = 0 \<and>
   tickPositioner exact False (Fin 79) five_categories = [0] \<and>
   binary64 (160 / 80) = Fin 2 \<and> binary64 (5 / 2) = Fin (5 / 2) \<and>
   tickPositioner binary64 False (Fin 160) five_categories = [0, 3]"
proof -
  have n: "length five_categories = 5" and ne: "five_categories \<noteq> []"
    by (simp_all add: five_categories_def)
  have t1: "(1::int) \<le> \<lfloor>(160::rat) / (if False then 20 else 80)\<rfloor>" by simp
  have t2: "(1::int) \<le> \<lfloor>(60::rat) / (if True then 20 else 80)\<rfloor>" by simp
  have t3: "\<lfloor>(79::rat) / (if False then 20 else 80)\<rfloor> = 0" by (simp add: floor_eq_iff)
  have c1: "\<lceil>(5::rat) / 2\<rceil> = 3" and c2: "\<lceil>(5::rat) / 3\<rceil> = 2"
    by (simp_all add: ceiling_eq_iff)
  have s1: "nat \<lceil>(of_nat (length five_categories) :: rat) /
      of_int \<lfloor>(160::rat) / (if False then 20 else 80)\<rfloor>\<rceil> = 3"
    by (simp add: n c1)
  have s2: "nat \<lceil>(of_nat (length five_categories) :: rat) /
      of_int \<lfloor>(60::rat) / (if True then 20 else 80)\<rfloor>\<rceil> = 2"
    by (simp add: n c2)
  have f: "[0..<5] = [0, 1, 2, 3, 4::nat]" by (simp add: upt_rec)
  have r1: "binary64 (160 / (if False then 20 else 80)) = Fin 2"
    by (simp add: binary64_ints)
  have r2: "binary64 (of_nat (length five_categories) /
      of_int \<lfloor>(160::rat) / (if False then 20 else 80)\<rfloor>) = Fin (5 / 2)"
    by (simp add: n binary64_5_2)
  have r3: "\<lfloor>2::rat\<rfloor> = \<lfloor>(160::rat) / (if False then 20 else 80)\<rfloor>" by simp
  have r4: "\<lceil>(5::rat) / 2\<rceil> = \<lceil>(of_nat (length five_categories) :: rat) /
      of_int \<lfloor>(160::rat) / (if False then 20 else 80)\<rfloor>\<rceil>"
    by (simp add: n)
  note math = tickPositioner_skip[THEN conjunct2, THEN conjunct2, THEN conjunct1, rule_format]
  note none = tickPositioner_skip[THEN conjunct2, THEN conjunct2, THEN conjunct2,
      THEN conjunct1, rule_format]
  note rounded = tickPositioner_skip[THEN conjunct2, THEN conjunct2, THEN conjunct2,
      THEN conjunct2, rule_format]
  have a: "tickPositioner exact False (Fin 160) five_categories = [0, 3]"
    unfolding math[of "Fin 160" 160 False five_categories, OF conjI[OF refl t1]] s1
    by (simp add: n f)
  have b: "tickPositioner exact True (Fin 60) five_categories = [0, 2, 4]"
    unfolding math[of "Fin 60" 60 True five_categories, OF conjI[OF refl t2]] s2
    by (simp add: n f)
  have c: "tickPositioner exact False (Fin 79) five_categories = [0]"
    unfolding none[of "Fin 79" 79 False five_categories, OF conjI[OF refl t3]]
    using ne by simp
  have d: "tickPositioner binary64 False (Fin 160) five_categories = [0, 3]"
    unfolding rounded[of "Fin 160" 160 False binary64 2 five_categories "5 / 2",
        OF conjI[OF refl conjI[OF t1 conjI[OF r1 conjI[OF r3 conjI[OF r2 r4]]]]]] s1
    by (simp add: n f)
  from a b c d t1 t2 t3 s1 s2 r1 binary64_5_2 show ?thesis by simp
qed





section \<open>Properties of the wrapped initialisation\<close>

lemma replace_spaces_length: "length (replace_spaces c) = length c"
  by (simp add: replace_spaces_def)

lemma replace_spaces_nth:
  "j < length c \<Longrightarrow> replace_spaces c ! j = (if c ! j = 0x20 then 0xA0 else c ! j)"
  by (simp add: replace_spaces_def)

lemma replace_spaces_no_space: "0x20 \<notin> set (replace_spaces c)"
  by (auto simp: replace_spaces_def)

lemma replace_spaces_id: "0x20 \<notin> set c \<Longrightarrow> replace_spaces c = c"
  by (induction c) (auto simp: replace_spaces_def)

text \<open>
  C6: when shortening is active (\<open>isX\<close> and \<open>shortenLabels\<close> are truthy), the
  original \<open>init\<close> is called with options whose categories are the given
  categories, in the same number and order, with every space (U+0020) replaced by
  a no-break space (U+00A0) and nothing else changed; a category without a space
  is unchanged.
\<close>

theorem Axis_init_replaces_spaces:
  assumes "truthy (isX opts)" and "truthy (shortenLabels opts)"
    and "categories opts = Some cats"
  shows "\<exists>opts'. Axis_init proceed this chart opts = Inr (proceed this chart opts') \<and>
     categories opts' = Some (map replace_spaces cats) \<and>
     length (map replace_spaces cats) = length cats \<and>
     (\<forall>i<length cats.
        map replace_spaces cats ! i = replace_spaces (cats ! i) \<and>
        length (replace_spaces (cats ! i)) = length (cats ! i) \<and>
        (\<forall>j<length (cats ! i).
           replace_spaces (cats ! i) ! j = (if cats ! i ! j = 0x20 then 0xA0 else cats ! i ! j)) \<and>
        0x20 \<notin> set (replace_spaces (cats ! i)) \<and>
        (0x20 \<notin> set (cats ! i) \<longrightarrow> replace_spaces (cats ! i) = cats ! i))"
proof -
  let ?rot = "case labels opts of None \<Rightarrow> False | Some l \<Rightarrow> truthy (rotation l)"
  let ?opts' = "merge_shorten ?rot (map replace_spaces cats) opts"
  have "Axis_init proceed this chart opts = Inr (proceed this chart ?opts')"
    using assms by (simp add: Axis_init_def)
  moreover have "categories ?opts' = Some (map replace_spaces cats)"
    by (simp add: merge_shorten_def)
  ultimately show ?thesis
    by (intro exI[of _ ?opts'])
       (simp add: replace_spaces_length replace_spaces_nth replace_spaces_no_space
          replace_spaces_id)
qed

theorem Axis_init_replaces_spaces_witness:
  "truthy (isX (city_options (Some (JBool True)))) \<and>
   truthy (shortenLabels (city_options (Some (JBool True)))) \<and>
   (\<exists>opts'. Axis_init (\<lambda>this chart opts. opts) () () (city_options (Some (JBool True))) = Inr opts' \<and>
      categories opts' =
        Some [[0x4E, 0x65, 0x77, 0xA0, 0x59, 0x6F, 0x72, 0x6B], ascii ''Oslo'',
              [0x52, 0x69, 0x6F, 0xA0, 0x64, 0x65, 0xA0, 0x4A, 0x61, 0x6E, 0x65, 0x69, 0x72, 0x6F]])"
proof -
  have x: "truthy (isX (city_options (Some (JBool True))))"
    and sh: "truthy (shortenLabels (city_options (Some (JBool True))))"
    and c: "categories (city_options (Some (JBool True))) =
        Some [ascii ''New York'', ascii ''Oslo'', ascii ''Rio de Janeiro'']"
    by (simp_all add: city_options_def)
  from Axis_init_replaces_spaces[OF x sh c, of "\<lambda>this chart opts. opts" "()" "()"]
  obtain opts' where
    "Axis_init (\<lambda>this chart opts. opts) () () (city_options (Some (JBool True))) = Inr opts'"
    "categories opts' =
       Some (map replace_spaces [ascii ''New York'', ascii ''Oslo'', ascii ''Rio de Janeiro''])"
    by blast
  moreover have "map replace_spaces [ascii ''New York'', ascii ''Oslo'', ascii ''Rio de Janeiro''] =
      [[0x4E, 0x65, 0x77, 0xA0, 0x59, 0x6F, 0x72, 0x6B], ascii ''Oslo'',
       [0x52, 0x69, 0x6F, 0xA0, 0x64, 0x65, 0xA0, 0x4A, 0x61, 0x6E, 0x65, 0x69, 0x72, 0x6F]]"
    by (simp add: replace_spaces_def ascii_def)
  ultimately show ?thesis using x sh by auto
qed

text \<open>
  C8: when \<open>isX\<close> or \<open>shortenLabels\<close> is falsy, the wrapper calls the original
  \<open>init\<close> with the chart and the options it was given, unchanged.
\<close>

theorem Axis_init_inactive:
  "\<not> truthy (isX opts) \<or> \<not> truthy (shortenLabels opts) \<Longrightarrow>
   Axis_init proceed this chart opts = Inr (proceed this chart opts)"
  by (auto simp: Axis_init_def)

theorem Axis_init_inactive_witness:
  "\<not> truthy (shortenLabels (city_options None)) \<and>
   Axis_init (\<lambda>this chart opts. opts) () () (city_options None) = Inr (city_options None) \<and>
   \<not> truthy (shortenLabels (city_options (Some (JBool False)))) \<and>
   Axis_init (\<lambda>this chart opts. opts) () () (city_options (Some (JBool False))) =
     Inr (city_options (Some (JBool False)))"
proof -
  have a: "\<not> truthy (shortenLabels (city_options None))"
    and b: "\<not> truthy (shortenLabels (city_options (Some (JBool False))))"
    by (simp_all add: city_options_def)
  from Axis_init_inactive[OF disjI2[OF a], of "\<lambda>this chart opts. opts" "()" "()"]
    Axis_init_inactive[OF disjI2[OF b], of "\<lambda>this chart opts. opts" "()" "()"] a b
  show ?thesis by simp
qed

end
